theory Spec2Isabelle
  imports Main "HOL-Library.AList" "HOL-Library.Product_Lexorder"
begin

section \<open>Log lines: the text operations of \<^verbatim>\<open>logic.py\<close>\<close>

text \<open>
  A log line is a Python \<^verbatim>\<open>str\<close>; it is modelled as a \<open>string\<close> whose characters
  are the code points of the decoded line (code points below 256). The character classes
  are those of Python's \<^verbatim>\<open>re\<close> on \<^verbatim>\<open>str\<close> patterns, restricted to that
  range: \<^verbatim>\<open>\d\<close> is the ten ASCII digits, \<^verbatim>\<open>\s\<close> is
  \<^verbatim>\<open>\t \n \v \f \r\<close>, the separators 0x1C to 0x1F, the space, NEL (0x85) and the
  no-break space (0xA0); \<^verbatim>\<open>\S\<close> is every other character.
\<close>

definition is_digit :: "char \<Rightarrow> bool" where
  "is_digit c = (c \<in> set ''0123456789'')"

definition is_space :: "char \<Rightarrow> bool" where
  "is_space c = (c \<in> set [CHR 0x09, CHR 0x0A, CHR 0x0B, CHR 0x0C, CHR 0x0D,
                           CHR 0x1C, CHR 0x1D, CHR 0x1E, CHR 0x1F, CHR '' '',
                           CHR 0x85, CHR 0xA0])"

definition non_space :: "char \<Rightarrow> bool" where
  "non_space c = (\<not> is_space c)"

text \<open>\<^verbatim>\<open>s.startswith(p)\<close> and the substring test \<^verbatim>\<open>sub in s\<close>.\<close>

fun starts_with :: "string \<Rightarrow> string \<Rightarrow> bool" where
  "starts_with [] s = True"
| "starts_with (p # ps) [] = False"
| "starts_with (p # ps) (c # cs) = (p = c \<and> starts_with ps cs)"

fun contains :: "string \<Rightarrow> string \<Rightarrow> bool" where
  "contains sub [] = (sub = [])"
| "contains sub (c # cs) = (starts_with sub (c # cs) \<or> contains sub cs)"

text \<open>\<^verbatim>\<open>s.strip()\<close>: whitespace removed at both ends.\<close>

definition strip :: "string \<Rightarrow> string" where
  "strip s = rev (dropWhile is_space (rev (dropWhile is_space s)))"

subsection \<open>The timestamp pattern\<close>

text \<open>
  \<^verbatim>\<open>re.search(r'(\d{4}\.\d{2}\.\d{2} \d{2}:\d{2}:\d{2})', line)\<close>: the pattern has a fixed
  length of 19 characters and no alternatives, so it matches at a position exactly when
  the 19 characters there have the shape; \<^verbatim>\<open>re.search\<close> returns the leftmost
  position that matches, anywhere in the line. \<open>timestamp_match\<close> is
  \<^verbatim>\<open>group(1)\<close> of the match, \<open>None\<close> when there is none.
\<close>

datatype pat_atom = Dig | Lit char

definition timestamp_pattern :: "pat_atom list" where
  "timestamp_pattern =
     [Dig, Dig, Dig, Dig, Lit (CHR ''.''), Dig, Dig, Lit (CHR ''.''), Dig, Dig,
      Lit (CHR '' ''), Dig, Dig, Lit (CHR '':''), Dig, Dig, Lit (CHR '':''), Dig, Dig]"

fun match_atoms :: "pat_atom list \<Rightarrow> string \<Rightarrow> bool" where
  "match_atoms [] s = True"
| "match_atoms (a # as) [] = False"
| "match_atoms (a # as) (c # cs) =
     ((case a of Dig \<Rightarrow> is_digit c | Lit l \<Rightarrow> c = l) \<and> match_atoms as cs)"

fun timestamp_match :: "string \<Rightarrow> string option" where
  "timestamp_match [] = None"
| "timestamp_match (c # cs) =
     (if match_atoms timestamp_pattern (c # cs) then Some (take 19 (c # cs))
      else timestamp_match cs)"

subsection \<open>The instance patterns\<close>

text \<open>
  Each of the four instance patterns is a literal followed by \<^verbatim>\<open>\s+(\S+)\<close>. Anchored
  at a position, the greedy \<^verbatim>\<open>\s+\<close> has to take the whole run of whitespace after the
  literal (a shorter run is followed by whitespace, which \<^verbatim>\<open>\S\<close> refuses), and the
  group is the whole run of non-whitespace after it. \<^verbatim>\<open>re.search\<close> takes the
  leftmost position where this succeeds.
\<close>

definition match_token_after :: "string \<Rightarrow> string \<Rightarrow> string option" where
  "match_token_after lit s =
     (if starts_with lit s then
        (let r = drop (length lit) s;
             ws = takeWhile is_space r;
             tok = takeWhile non_space (dropWhile is_space r)
         in if ws \<noteq> [] \<and> tok \<noteq> [] then Some tok else None)
      else None)"

fun search_token_after :: "string \<Rightarrow> string \<Rightarrow> string option" where
  "search_token_after lit [] = match_token_after lit []"
| "search_token_after lit (c # cs) =
     (case match_token_after lit (c # cs) of
        Some tok \<Rightarrow> Some tok
      | None \<Rightarrow> search_token_after lit cs)"

definition instance_patterns :: "string list" where
  "instance_patterns =
     [''Joining or Creating Room:'', ''Joining Room:'', ''Room:'', ''Joining'']"

text \<open>
  The loop over \<^verbatim>\<open>instance_patterns\<close>: the first pattern that matches gives
  \<^verbatim>\<open>instance_id_found = instance_match.group(1).strip()\<close>.
\<close>

fun first_instance_match :: "string list \<Rightarrow> string \<Rightarrow> string option" where
  "first_instance_match [] line = None"
| "first_instance_match (p # ps) line =
     (case search_token_after p line of
        Some g \<Rightarrow> Some (strip g)
      | None \<Rightarrow> first_instance_match ps line)"

definition instance_id_found :: "string \<Rightarrow> string option" where
  "instance_id_found line = first_instance_match instance_patterns line"

subsection \<open>The player patterns\<close>

text \<open>
  \<^verbatim>\<open>re.search(r'OnPlayerJoined\s+(\S+)\s+\((\S+)\)', line)\<close> and its
  \<^verbatim>\<open>OnPlayerLeft\<close> twin. Anchored at a position: the keyword, the whole run of
  whitespace, the name (the whole run of non-whitespace, since \<^verbatim>\<open>\s+\<close> must
  follow), the whole run of whitespace, an opening parenthesis, and then the greedy
  \<^verbatim>\<open>(\S+)\<close> backtracks inside the run of non-whitespace to its last closing
  parenthesis that leaves the group non-empty.
\<close>

definition before_last_paren :: "string \<Rightarrow> string option" where
  "before_last_paren run =
     (case dropWhile (\<lambda>c. c \<noteq> CHR '')'') (rev run) of
        [] \<Rightarrow> None
      | c # pre \<Rightarrow> if pre = [] then None else Some (rev pre))"

definition match_player_at :: "string \<Rightarrow> string \<Rightarrow> (string \<times> string) option" where
  "match_player_at kw s =
     (if starts_with kw s then
        (let r1 = drop (length kw) s;
             ws1 = takeWhile is_space r1;
             r2 = dropWhile is_space r1;
             nm = takeWhile non_space r2;
             r3 = dropWhile non_space r2;
             ws2 = takeWhile is_space r3;
             r4 = dropWhile is_space r3
         in if ws1 \<noteq> [] \<and> nm \<noteq> [] \<and> ws2 \<noteq> [] then
              (case r4 of
                 [] \<Rightarrow> None
               | c # r5 \<Rightarrow>
                   if c = CHR ''('' then
                     (case before_last_paren (takeWhile non_space r5) of
                        None \<Rightarrow> None
                      | Some ident \<Rightarrow> Some (nm, ident))
                   else None)
            else None)
      else None)"

fun player_match :: "string \<Rightarrow> string \<Rightarrow> (string \<times> string) option" where
  "player_match kw [] = match_player_at kw []"
| "player_match kw (c # cs) =
     (case match_player_at kw (c # cs) of
        Some m \<Rightarrow> Some m
      | None \<Rightarrow> player_match kw cs)"

section \<open>Timestamps\<close>

text \<open>
  A naive \<^verbatim>\<open>datetime\<close> is its seven fields (year, month, day, hour, minute, second,
  microsecond), Python integers; Python compares two of them field by field in this order, which is the
  lexicographic order of the tuple.
\<close>

type_synonym datetime = "int \<times> int \<times> int \<times> int \<times> int \<times> int \<times> int"

definition is_leap :: "int \<Rightarrow> bool" where
  "is_leap y = (y mod 4 = 0 \<and> (y mod 100 \<noteq> 0 \<or> y mod 400 = 0))"

definition days_in_month :: "int \<Rightarrow> int \<Rightarrow> int" where
  "days_in_month y m =
     (if m = 2 then (if is_leap y then 29 else 28)
      else if m \<in> set [4, 6, 9, 11] then 30 else 31)"

definition digits_val :: "string \<Rightarrow> int" where
  "digits_val s = foldl (\<lambda>n c. 10 * n + (of_char c - 48)) 0 s"

text \<open>
  \<^verbatim>\<open>datetime.strptime(timestamp_str, '%Y.%m.%d %H:%M:%S')\<close>. \<open>None\<close> is the
  \<^verbatim>\<open>ValueError\<close> it raises: a text of another shape, year 0, a month outside 1 to 12,
  a day the month does not have, an hour above 23, a minute or a second above 59.
\<close>

definition strptime :: "string \<Rightarrow> datetime option" where
  "strptime s =
     (if length s = 19 \<and> match_atoms timestamp_pattern s then
        (let y = digits_val (take 4 s);
             mo = digits_val (take 2 (drop 5 s));
             d = digits_val (take 2 (drop 8 s));
             h = digits_val (take 2 (drop 11 s));
             mi = digits_val (take 2 (drop 14 s));
             se = digits_val (take 2 (drop 17 s))
         in if 1 \<le> y \<and> 1 \<le> mo \<and> mo \<le> 12 \<and> 1 \<le> d \<and> d \<le> days_in_month y mo
               \<and> h \<le> 23 \<and> mi \<le> 59 \<and> se \<le> 59
            then Some (y, mo, d, h, mi, se, 0)
            else None)
      else None)"

section \<open>The log watcher (\<^verbatim>\<open>VRChatLogWatcher\<close>)\<close>

text \<open>
  \<^verbatim>\<open>player_events\<close> is a Python dict from player id to a dict with the keys
  \<^verbatim>\<open>name\<close>, \<^verbatim>\<open>joins\<close>, \<^verbatim>\<open>leaves\<close>; a dict keeps its keys in the order of
  their insertion, so it is an association list (\<open>AList.update\<close> overwrites a key in
  place and appends a new one). \<open>logic_player_join_times\<close> is the dict
  \<^verbatim>\<open>VRChatLogic._player_join_times\<close>, which the watcher writes through the callbacks
  \<^verbatim>\<open>on_player_join\<close> and \<^verbatim>\<open>on_player_leave\<close>. The messages passed to
  \<^verbatim>\<open>self.logic.log\<close> do not feed back into the state and are left out here.
\<close>

record events =
  name :: string
  joins :: "datetime list"
  leaves :: "datetime list"

record watcher =
  log_path :: "string option"
  file_position :: nat
  is_watching :: bool
  current_instance :: "string option"
  player_events :: "(string \<times> events) list"
  logic_player_join_times :: "(string \<times> datetime) list"

definition init_watcher :: watcher where
  "init_watcher =
     \<lparr>log_path = None, file_position = 0, is_watching = False, current_instance = None,
      player_events = [], logic_player_join_times = []\<rparr>"

text \<open>
  The two steps of recording an event: create the player's entry when the id is new
  (\<^verbatim>\<open>if player_id not in self.player_events\<close>), then append the timestamp.
\<close>

definition ensure_player :: "string \<Rightarrow> string \<Rightarrow> (string \<times> events) list \<Rightarrow> (string \<times> events) list" where
  "ensure_player player_id player_name evs =
     (if map_of evs player_id = None
      then AList.update player_id \<lparr>name = player_name, joins = [], leaves = []\<rparr> evs
      else evs)"

definition append_join :: "string \<Rightarrow> datetime \<Rightarrow> (string \<times> events) list \<Rightarrow> (string \<times> events) list" where
  "append_join player_id t evs = AList.map_entry player_id (\<lambda>e. e\<lparr>joins := joins e @ [t]\<rparr>) evs"

definition append_leave :: "string \<Rightarrow> datetime \<Rightarrow> (string \<times> events) list \<Rightarrow> (string \<times> events) list" where
  "append_leave player_id t evs = AList.map_entry player_id (\<lambda>e. e\<lparr>leaves := leaves e @ [t]\<rparr>) evs"

text \<open>
  \<^verbatim>\<open>_process_log_line\<close>. The three branches of the source, in its order. A
  \<^verbatim>\<open>ValueError\<close> of \<^verbatim>\<open>strptime\<close> is caught by the function's own
  \<^verbatim>\<open>except\<close>, which only logs: the state is as before the line. The instance branch
  does not call \<^verbatim>\<open>strptime\<close>. A matched group is never empty, so the truth test of
  \<^verbatim>\<open>instance_id_found\<close> is written as the test for the empty string.
\<close>

definition process_log_line :: "watcher \<Rightarrow> string \<Rightarrow> watcher" where
  "process_log_line w line =
     (if contains ''Joining'' line \<and> contains ''Room'' line then
        (case timestamp_match line of
           None \<Rightarrow> w
         | Some timestamp_str \<Rightarrow>
             (case instance_id_found line of
                None \<Rightarrow> w
              | Some iid \<Rightarrow>
                  if iid = [] then w
                  else w\<lparr>current_instance := Some iid, player_events := []\<rparr>))
      else if contains ''[Behaviour] OnPlayerJoined'' line then
        (case timestamp_match line of
           None \<Rightarrow> w
         | Some timestamp_str \<Rightarrow>
             (case player_match ''OnPlayerJoined'' line of
                None \<Rightarrow> w
              | Some (nm, ident) \<Rightarrow>
                  (let player_name = strip nm; player_id = strip ident in
                   case strptime timestamp_str of
                     None \<Rightarrow> w
                   | Some timestamp \<Rightarrow>
                       w\<lparr>player_events :=
                            append_join player_id timestamp
                              (ensure_player player_id player_name (player_events w)),
                          logic_player_join_times :=
                            AList.update player_id timestamp (logic_player_join_times w)\<rparr>)))
      else if contains ''[Behaviour] OnPlayerLeft'' line then
        (case timestamp_match line of
           None \<Rightarrow> w
         | Some timestamp_str \<Rightarrow>
             (case player_match ''OnPlayerLeft'' line of
                None \<Rightarrow> w
              | Some (nm, ident) \<Rightarrow>
                  (let player_name = strip nm; player_id = strip ident in
                   case strptime timestamp_str of
                     None \<Rightarrow> w
                   | Some timestamp \<Rightarrow>
                       w\<lparr>player_events :=
                            append_leave player_id timestamp
                              (ensure_player player_id player_name (player_events w)),
                          logic_player_join_times :=
                            AList.delete player_id (logic_player_join_times w)\<rparr>)))
      else w)"

text \<open>
  \<^verbatim>\<open>get_active_players\<close>: the players with more joins than leaves, in the order of
  the dict, each with the maximum of its join times. \<^verbatim>\<open>max\<close> of an empty list raises
  \<^verbatim>\<open>ValueError\<close>, which is \<open>None\<close> here.
\<close>

record player =
  id' :: string
  display_name :: string

definition py_max :: "datetime list \<Rightarrow> datetime option" where
  "py_max ts = (case ts of [] \<Rightarrow> None | t # ts' \<Rightarrow> Some (fold max ts' t))"

fun active_players_loop ::
  "(string \<times> events) list \<Rightarrow> (player list \<times> (string \<times> datetime) list) option" where
  "active_players_loop [] = Some ([], [])"
| "active_players_loop ((player_id, evs) # rest) =
     (if length (joins evs) > length (leaves evs) then
        (case py_max (joins evs) of
           None \<Rightarrow> None
         | Some latest_join \<Rightarrow>
             (case active_players_loop rest of
                None \<Rightarrow> None
              | Some (active_players, player_join_times) \<Rightarrow>
                  Some (\<lparr>id' = player_id, display_name = name evs\<rparr> # active_players,
                        (player_id, latest_join) # player_join_times)))
      else active_players_loop rest)"

definition get_active_players ::
  "watcher \<Rightarrow> (player list \<times> (string \<times> datetime) list) option" where
  "get_active_players w = active_players_loop (player_events w)"

section \<open>The log file\<close>

text \<open>
  What the watcher sees of the file at \<^verbatim>\<open>log_path\<close> when it looks: no file
  (\<^verbatim>\<open>os.path.exists\<close> is false and \<^verbatim>\<open>open\<close> raises), a file of some size that
  cannot be opened for reading (\<^verbatim>\<open>os.path.exists\<close> and \<^verbatim>\<open>os.path.getsize\<close>
  answer, \<^verbatim>\<open>open\<close> raises), or a file with its content. The content is the bytes
  of the file, one \<^typ>\<open>char\<close> per byte: \<^verbatim>\<open>os.path.getsize\<close>, \<^verbatim>\<open>f.seek\<close> and
  the \<^verbatim>\<open>f.tell\<close> at the end of the file count bytes. One run of a function below sees
  one such snapshot of the file.
\<close>

datatype source = Missing | Unreadable nat | Readable string

definition source_exists :: "source \<Rightarrow> bool" where
  "source_exists src = (src \<noteq> Missing)"

definition getsize :: "source \<Rightarrow> nat" where
  "getsize src = (case src of Missing \<Rightarrow> 0 | Unreadable n \<Rightarrow> n | Readable content \<Rightarrow> length content)"

text \<open>
  The file is opened with \<^verbatim>\<open>encoding='utf-8', errors='ignore'\<close>. The decoder reads
  a lead byte and the continuation bytes it announces; a byte that cannot start a
  sequence is dropped, a sequence broken at its second, third or fourth byte loses the
  bytes before the break and decoding goes on at the breaking byte, and a sequence cut
  by the end of the data is dropped. The characters below 128 are one byte each, the
  characters from 128 to 255 are the two-byte sequences with lead byte \<^verbatim>\<open>C2\<close> or
  \<^verbatim>\<open>C3\<close>. The text of this development is over the characters up to 255: a
  well-formed sequence for a character above 255 consumes its bytes and contributes no
  character to the text.
\<close>

definition byte :: "char \<Rightarrow> int" where
  "byte b = of_char b"

definition is_continuation :: "char \<Rightarrow> bool" where
  "is_continuation b = (128 \<le> byte b \<and> byte b < 192)"

definition valid_second3 :: "char \<Rightarrow> char \<Rightarrow> bool" where
  "valid_second3 b b2 = (is_continuation b2 \<and> \<not> (byte b = 224 \<and> byte b2 < 160)
                          \<and> \<not> (byte b = 237 \<and> 160 \<le> byte b2))"

definition valid_second4 :: "char \<Rightarrow> char \<Rightarrow> bool" where
  "valid_second4 b b2 = (is_continuation b2 \<and> \<not> (byte b = 240 \<and> byte b2 < 144)
                          \<and> \<not> (byte b = 244 \<and> 144 \<le> byte b2))"

text \<open>The character of the sequence \<^verbatim>\<open>C3 b2\<close>: the code point of \<^verbatim>\<open>b2\<close> plus 64.\<close>

definition upper_latin :: "char \<Rightarrow> char" where
  "upper_latin b2 = (case b2 of Char d0 d1 d2 d3 d4 d5 d6 d7 \<Rightarrow> Char d0 d1 d2 d3 d4 d5 True d7)"

fun decode_utf8 :: "string \<Rightarrow> string" where
  "decode_utf8 [] = []"
| "decode_utf8 (b # rest) =
     (if byte b < 128 then b # decode_utf8 rest
      else if byte b < 194 then decode_utf8 rest
      else if byte b < 224 then
        (case rest of
           [] \<Rightarrow> []
         | b2 # rest2 \<Rightarrow>
             if \<not> is_continuation b2 then decode_utf8 rest
             else if byte b = 194 then b2 # decode_utf8 rest2
             else if byte b = 195 then upper_latin b2 # decode_utf8 rest2
             else decode_utf8 rest2)
      else if byte b < 240 then
        (case rest of
           [] \<Rightarrow> []
         | b2 # rest2 \<Rightarrow>
             if \<not> valid_second3 b b2 then decode_utf8 rest
             else (case rest2 of
                     [] \<Rightarrow> []
                   | b3 # rest3 \<Rightarrow>
                       if \<not> is_continuation b3 then decode_utf8 rest2
                       else decode_utf8 rest3))
      else if byte b < 245 then
        (case rest of
           [] \<Rightarrow> []
         | b2 # rest2 \<Rightarrow>
             if \<not> valid_second4 b b2 then decode_utf8 rest
             else (case rest2 of
                     [] \<Rightarrow> []
                   | b3 # rest3 \<Rightarrow>
                       if \<not> is_continuation b3 then decode_utf8 rest2
                       else (case rest3 of
                               [] \<Rightarrow> []
                             | b4 # rest4 \<Rightarrow>
                                 if \<not> is_continuation b4 then decode_utf8 rest3
                                 else decode_utf8 rest4)))
      else decode_utf8 rest)"

text \<open>
  The file is opened in text mode with the default \<^verbatim>\<open>newline=None\<close>: a carriage
  return followed by a line feed, and a carriage return alone, are read as one line
  feed.
\<close>

fun universal_newlines :: "string \<Rightarrow> string" where
  "universal_newlines [] = []"
| "universal_newlines (c # cs) =
     (if c = CHR 0x0D then
        (case cs of
           [] \<Rightarrow> [CHR 0x0A]
         | d # ds \<Rightarrow>
             if d = CHR 0x0A then CHR 0x0A # universal_newlines ds
             else CHR 0x0A # universal_newlines cs)
      else c # universal_newlines cs)"

text \<open>The lines of a text, each with its line feed; the last one may have none.\<close>

fun split_lines :: "string \<Rightarrow> string list" where
  "split_lines [] = []"
| "split_lines (c # cs) =
     (if c = CHR 0x0A then [c] # split_lines cs
      else (case split_lines cs of [] \<Rightarrow> [[c]] | l # ls \<Rightarrow> (c # l) # ls))"

text \<open>
  \<^verbatim>\<open>f.readlines()\<close> on the bytes from the read position to the end of the file: they
  are decoded, the line ends are translated, and the text is cut into lines.
\<close>

definition readlines :: "string \<Rightarrow> string list" where
  "readlines bytes = split_lines (universal_newlines (decode_utf8 bytes))"

text \<open>
  \<^verbatim>\<open>_position_at_end\<close>: the offset becomes the end of the file, in bytes; when the
  file cannot be opened the exception is caught and logged, and the offset stays.
\<close>

definition position_at_end :: "watcher \<Rightarrow> source \<Rightarrow> watcher" where
  "position_at_end w src =
     (case src of
        Readable content \<Rightarrow> w\<lparr>file_position := length content\<rparr>
      | _ \<Rightarrow> w)"

text \<open>
  The test both scans apply to a line before they take it as an instance change:
  \<^verbatim>\<open>"Joining" in line and "Room" in line\<close>, a timestamp match and an instance id.
  \<open>instance_line\<close> gives the matched timestamp text and the id.
\<close>

definition instance_line :: "string \<Rightarrow> (string \<times> string) option" where
  "instance_line line =
     (if contains ''Joining'' line \<and> contains ''Room'' line then
        (case timestamp_match line of
           None \<Rightarrow> None
         | Some timestamp_str \<Rightarrow>
             (case instance_id_found line of
                None \<Rightarrow> None
              | Some iid \<Rightarrow> if iid = [] then None else Some (timestamp_str, iid)))
      else None)"

text \<open>
  \<^verbatim>\<open>_find_current_instance\<close>: the lines in reverse, the first instance line found
  sets \<^verbatim>\<open>current_instance\<close> and returns. An unreadable file is an exception caught
  and logged.
\<close>

fun find_instance_loop :: "string list \<Rightarrow> string option" where
  "find_instance_loop [] = None"
| "find_instance_loop (line # rest) =
     (case instance_line line of
        Some (timestamp_str, iid) \<Rightarrow> Some iid
      | None \<Rightarrow> find_instance_loop rest)"

definition find_current_instance :: "watcher \<Rightarrow> source \<Rightarrow> watcher" where
  "find_current_instance w src =
     (case src of
        Readable content \<Rightarrow>
          (case find_instance_loop (rev (readlines content)) of
             Some iid \<Rightarrow> w\<lparr>current_instance := Some iid\<rparr>
           | None \<Rightarrow> w)
      | _ \<Rightarrow> w)"

text \<open>
  The first pass of \<^verbatim>\<open>_scan_entire_log\<close>: the list \<^verbatim>\<open>instance_changes\<close> of
  (timestamp, instance id), in the order of the lines. \<open>None\<close> is the
  \<^verbatim>\<open>ValueError\<close> of \<^verbatim>\<open>strptime\<close>, which leaves the loop for the handler of the
  whole scan.
\<close>

fun instance_changes_loop :: "string list \<Rightarrow> (datetime \<times> string) list option" where
  "instance_changes_loop [] = Some []"
| "instance_changes_loop (line # rest) =
     (case instance_line line of
        None \<Rightarrow> instance_changes_loop rest
      | Some (timestamp_str, iid) \<Rightarrow>
          (case strptime timestamp_str of
             None \<Rightarrow> None
           | Some timestamp \<Rightarrow>
               (case instance_changes_loop rest of
                  None \<Rightarrow> None
                | Some changes \<Rightarrow> Some ((timestamp, iid) # changes))))"

text \<open>
  The second pass: every line with a timestamp at or after the instance change goes to
  \<^verbatim>\<open>_process_log_line\<close>. \<open>Inl\<close> is the \<^verbatim>\<open>ValueError\<close> of
  \<^verbatim>\<open>strptime\<close> with the state reached when it was raised, \<open>Inr\<close> the state
  after the last line.
\<close>

fun second_pass :: "datetime \<Rightarrow> watcher \<Rightarrow> string list \<Rightarrow> watcher + watcher" where
  "second_pass instance_change_time w [] = Inr w"
| "second_pass instance_change_time w (line # rest) =
     (case timestamp_match line of
        None \<Rightarrow> second_pass instance_change_time w rest
      | Some timestamp_str \<Rightarrow>
          (case strptime timestamp_str of
             None \<Rightarrow> Inl w
           | Some timestamp \<Rightarrow>
               if timestamp < instance_change_time
               then second_pass instance_change_time w rest
               else second_pass instance_change_time (process_log_line w line) rest))"

text \<open>
  \<^verbatim>\<open>_scan_entire_log\<close>. \<^verbatim>\<open>not self.current_instance\<close> holds for
  \<^verbatim>\<open>None\<close> and for the empty string. The list is sorted by timestamp
  (\<^verbatim>\<open>list.sort\<close> is stable, as \<open>sort_key\<close> is) and its last element is the most
  recent change. Every path, the handler of the exceptions too, ends with
  \<^verbatim>\<open>_position_at_end\<close>.
\<close>

definition falsy :: "string option \<Rightarrow> bool" where
  "falsy v = (case v of None \<Rightarrow> True | Some s \<Rightarrow> s = [])"

definition scan_entire_log :: "watcher \<Rightarrow> source \<Rightarrow> watcher" where
  "scan_entire_log w0 src =
     (let w = find_current_instance w0 src in
      if falsy (current_instance w) then position_at_end w src
      else
        (case src of
           Readable content \<Rightarrow>
             (let lines = readlines content in
              case instance_changes_loop lines of
                None \<Rightarrow> position_at_end w src
              | Some changes \<Rightarrow>
                  (let instance_changes = sort_key fst changes in
                   if instance_changes \<noteq> [] then
                     (let most_recent = last instance_changes;
                          w1 = w\<lparr>current_instance := Some (snd most_recent)\<rparr>
                      in case second_pass (fst most_recent) w1 lines of
                           Inl w2 \<Rightarrow> position_at_end w2 src
                         | Inr w2 \<Rightarrow> position_at_end w2 src)
                   else position_at_end w src))
         | _ \<Rightarrow> position_at_end w src))"

text \<open>
  One iteration of the loop of \<^verbatim>\<open>_watch_log\<close>, on the snapshot of the file it
  sees. When the file exists and its size is above the offset, the bytes from the offset
  on are read, the offset becomes the end of the file and the new lines are processed.
  An exception (the file cannot be opened) is caught outside the loop, which ends with
  \<^verbatim>\<open>is_watching = False\<close>.
\<close>

definition watch_log_poll :: "watcher \<Rightarrow> source \<Rightarrow> watcher" where
  "watch_log_poll w src =
     (if source_exists src then
        (let current_size = getsize src in
         if current_size > file_position w then
           (case src of
              Readable content \<Rightarrow>
                (let new_lines = readlines (drop (file_position w) content)
                 in foldl process_log_line (w\<lparr>file_position := length content\<rparr>) new_lines)
            | _ \<Rightarrow> w\<lparr>is_watching := False\<rparr>)
         else w)
      else w)"

text \<open>
  The loop \<^verbatim>\<open>while self.is_watching\<close>, run on the snapshots its iterations see,
  one per iteration; the list is as long as the loop is observed.
\<close>

fun watch_log :: "watcher \<Rightarrow> source list \<Rightarrow> watcher" where
  "watch_log w [] = w"
| "watch_log w (src # rest) =
     (if is_watching w then watch_log (watch_log_poll w src) rest else w)"

text \<open>
  \<^verbatim>\<open>start_watching\<close>. \<open>found\<close> is what \<^verbatim>\<open>self.logic._get_vrchat_log_path()\<close>
  returns and \<open>fs\<close> the file system. The result is the returned boolean with the last
  message logged before the return, and the state. The polling thread that a successful
  start creates runs \<open>watch_log\<close>.
\<close>

definition start_watching ::
  "watcher \<Rightarrow> (string \<Rightarrow> source) \<Rightarrow> string option \<Rightarrow> string option \<Rightarrow> bool
     \<Rightarrow> (bool \<times> string) \<times> watcher" where
  "start_watching w fs found log_path_arg scan_existing =
     (if is_watching w then ((False, ''Already watching log file''), w)
      else
        (let lp = (if falsy log_path_arg then found else log_path_arg) in
         case lp of
           None \<Rightarrow> ((False, ''Could not find VRChat log file to watch''), w)
         | Some path \<Rightarrow>
             if path = [] \<or> \<not> source_exists (fs path)
             then ((False, ''Could not find VRChat log file to watch''), w)
             else
               (let w1 = w\<lparr>log_path := Some path\<rparr>;
                    w2 = (if scan_existing then scan_entire_log w1 (fs path)
                          else position_at_end w1 (fs path))
                in ((True, ''Log watcher started successfully''), w2\<lparr>is_watching := True\<rparr>))))"

text \<open>\<^verbatim>\<open>VRChatLogic.start_log_watching\<close>, the start the GUI calls.\<close>

definition start_log_watching ::
  "watcher \<Rightarrow> (string \<Rightarrow> source) \<Rightarrow> string option \<Rightarrow> bool \<Rightarrow> (bool \<times> string) \<times> watcher" where
  "start_log_watching w fs found scan_existing =
     (if is_watching w then ((True, ''Log watcher is already running''), w)
      else if falsy found then ((False, ''Could not find VRChat log file''), w)
      else start_watching w fs found found scan_existing)"

section \<open>The eligibility filter\<close>

text \<open>
  The difference of two naive datetimes is a number of microseconds on the proleptic
  Gregorian calendar. \<open>to_microseconds\<close> counts from the start of year 1, as
  \<^verbatim>\<open>toordinal\<close> does for the days.
\<close>

definition days_before_year :: "int \<Rightarrow> int" where
  "days_before_year y = (y - 1) * 365 + (y - 1) div 4 - (y - 1) div 100 + (y - 1) div 400"

definition days_before_month :: "int \<Rightarrow> int \<Rightarrow> int" where
  "days_before_month y m = sum_list (map (days_in_month y) [1..m - 1])"

definition to_microseconds :: "datetime \<Rightarrow> int" where
  "to_microseconds dt =
     (case dt of (y, mo, d, h, mi, se, us) \<Rightarrow>
        ((((days_before_year y + days_before_month y mo + d) * 24 + h) * 60 + mi) * 60 + se)
          * 1000000 + us)"

text \<open>
  \<^verbatim>\<open>timedelta.total_seconds()\<close> is the number of microseconds divided by \<open>10\<^sup>6\<close>
  with the true division of two integers, whose value is the double nearest to the
  quotient, a tie going to the even significand. \<open>true_divide a b\<close>, for a positive
  \<open>b\<close>, gives that double as a fraction with a power of two as denominator: with
  \<open>e\<close> the exponent of the quotient (\<^verbatim>\<open>2**e <= abs(a)/b < 2**(e+1)\<close>) and
  \<open>p = 52 - e\<close>, the significand is the quotient times \<^verbatim>\<open>2**p\<close>, rounded to an
  integer. (The quotients of this development are far inside the range of the normal
  doubles.) \<open>bit_length\<close> is \<^verbatim>\<open>int.bit_length\<close> on an integer that is not
  negative.
\<close>

function bit_length :: "int \<Rightarrow> int" where
  "bit_length a = (if 0 < a then 1 + bit_length (a div 2) else 0)"
  by pat_completeness auto
termination
  by (relation "measure nat") auto

declare bit_length.simps [simp del]

definition round_half_even :: "int \<Rightarrow> int \<Rightarrow> int" where
  "round_half_even a b =
     (let q = a div b; r = a mod b
      in if 2 * r < b then q
         else if b < 2 * r then q + 1
         else if even q then q else q + 1)"

definition pow2 :: "int \<Rightarrow> int" where
  "pow2 n = 2 ^ nat n"

definition true_divide :: "int \<Rightarrow> int \<Rightarrow> int \<times> int" where
  "true_divide a b =
     (if a = 0 then (0, 1)
      else
        (let m = \<bar>a\<bar>;
             e0 = bit_length m - bit_length b;
             e = (if (if 0 \<le> e0 then b * pow2 e0 \<le> m else b \<le> m * pow2 (- e0))
                  then e0 else e0 - 1);
             p = 52 - e;
             k = (if 0 \<le> p then round_half_even (m * pow2 p) b
                  else round_half_even m (b * pow2 (- p)) * pow2 (- p))
         in (sgn a * k, if 0 \<le> p then pow2 p else 1)))"

definition total_seconds :: "int \<Rightarrow> int \<times> int" where
  "total_seconds microseconds = true_divide microseconds 1000000"

text \<open>
  \<^verbatim>\<open>time_in_instance = (current_time - join_time).total_seconds()\<close> and the test
  \<^verbatim>\<open>time_in_instance < delay\<close>; \<open>delay\<close> is the integer number of seconds the GUI
  passes. Python compares a float with an integer by their exact values.
\<close>

definition under_dwell :: "datetime \<Rightarrow> int \<Rightarrow> datetime \<Rightarrow> bool" where
  "under_dwell current_time delay join_time =
     (case total_seconds (to_microseconds current_time - to_microseconds join_time) of
        (numerator, denominator) \<Rightarrow> numerator < delay * denominator)"

text \<open>
  The filter loop of \<^verbatim>\<open>invite_instance_players_to_group\<close> over
  \<^verbatim>\<open>players_with_times\<close>; \<open>uid\<close> is \<^verbatim>\<open>self.current_user.id\<close>. Each
  \<^verbatim>\<open>continue\<close> drops the player, in the order of the source.
\<close>

fun filter_players ::
  "string \<Rightarrow> string list \<Rightarrow> string list \<Rightarrow> datetime \<Rightarrow> int \<Rightarrow> (player \<times> datetime) list
     \<Rightarrow> player list" where
  "filter_players uid member_ids pending_invites current_time delay [] = []"
| "filter_players uid member_ids pending_invites current_time delay ((p, join_time) # rest) =
     (if id' p = uid
        then filter_players uid member_ids pending_invites current_time delay rest
      else if id' p \<in> set member_ids
        then filter_players uid member_ids pending_invites current_time delay rest
      else if id' p \<in> set pending_invites
        then filter_players uid member_ids pending_invites current_time delay rest
      else if under_dwell current_time delay join_time
        then filter_players uid member_ids pending_invites current_time delay rest
      else p # filter_players uid member_ids pending_invites current_time delay rest)"

text \<open>
  What follows the loop: with no player left the function logs and returns
  \<^verbatim>\<open>False\<close> (\<open>None\<close>: nothing is dispatched); otherwise the filtered list is the
  argument of the invitation thread.
\<close>

definition dispatched_players ::
  "string \<Rightarrow> string list \<Rightarrow> string list \<Rightarrow> datetime \<Rightarrow> int \<Rightarrow> (player \<times> datetime) list
     \<Rightarrow> player list option" where
  "dispatched_players uid member_ids pending_invites current_time delay players_with_times =
     (let filtered_players =
            filter_players uid member_ids pending_invites current_time delay players_with_times
      in if filtered_players = [] then None else Some filtered_players)"

text \<open>
  Where \<^verbatim>\<open>players_with_times\<close> comes from, for a logged-in client whose log watcher
  is running. \<^verbatim>\<open>get_players_in_instance\<close> returns the active players of the
  watcher, or the empty list when \<^verbatim>\<open>get_active_players\<close> raises.
  \<^verbatim>\<open>get_players_in_instance_with_times\<close> pairs each of them with the entry of
  \<^verbatim>\<open>self._player_join_times\<close> for its id (the field \<open>logic_player_join_times\<close>,
  written by the join and leave callbacks), and with its own reading of
  \<^verbatim>\<open>datetime.now()\<close> when there is no entry.
\<close>

definition get_players_in_instance :: "watcher \<Rightarrow> player list" where
  "get_players_in_instance w =
     (case get_active_players w of
        None \<Rightarrow> []
      | Some (active_players, player_join_times) \<Rightarrow> active_players)"

definition get_players_in_instance_with_times :: "watcher \<Rightarrow> datetime \<Rightarrow> (player \<times> datetime) list" where
  "get_players_in_instance_with_times w current_time =
     map (\<lambda>p. case map_of (logic_player_join_times w) (id' p) of
                 Some join_time \<Rightarrow> (p, join_time)
               | None \<Rightarrow> (p, current_time))
         (get_players_in_instance w)"

text \<open>
  \<^verbatim>\<open>invite_instance_players_to_group\<close> from the reading of the players on (the
  checks before it have passed). \<open>member_ids\<close> and \<open>pending_invites\<close> are what the
  two remote calls gave, \<open>time_read\<close> is \<^verbatim>\<open>datetime.now()\<close> as read in
  \<^verbatim>\<open>get_players_in_instance_with_times\<close> and \<open>current_time\<close> as read before the
  filter. The result is the list handed to the invitation thread, or \<open>None\<close> when
  the function returns \<^verbatim>\<open>False\<close>.
\<close>

definition players_to_invite ::
  "watcher \<Rightarrow> string \<Rightarrow> string list \<Rightarrow> string list \<Rightarrow> datetime \<Rightarrow> datetime \<Rightarrow> int
     \<Rightarrow> player list option" where
  "players_to_invite w uid member_ids pending_invites time_read current_time delay =
     (let players_with_times = get_players_in_instance_with_times w time_read
      in if players_with_times = [] then None
         else dispatched_players uid member_ids pending_invites current_time delay
                players_with_times)"

section \<open>The invitation workers\<close>

text \<open>
  The remote service as the worker sees it. A call returns or raises; an exception is
  \<^verbatim>\<open>ApiException\<close> with its status, or another exception. The value of
  \<^verbatim>\<open>get_group_member\<close> is the truth value of the membership it returns;
  \<^verbatim>\<open>get_group_invites\<close> gives the user ids of \<^verbatim>\<open>response.data\<close>, or \<open>NoData\<close>
  for a response that is false or has no attribute \<^verbatim>\<open>data\<close>.
\<close>

datatype api_exception = ApiException nat | OtherException

datatype 'a api_result = Returns 'a | Raises api_exception

datatype invites_response = NoData | Data "string list"

record groups_api =
  get_group_member :: "string \<Rightarrow> string \<Rightarrow> bool api_result"
  get_group_invites :: "string \<Rightarrow> invites_response api_result"
  create_group_invite :: "string \<Rightarrow> string \<Rightarrow> unit api_result"

datatype api_call =
  GetGroupMember string string
| GetGroupInvites string
| CreateGroupInvite string string

record counters =
  invited_count :: nat
  failed_count :: nat
  skipped_count :: nat

text \<open>
  The body of the worker for one player (the inner \<^verbatim>\<open>try\<close> of \<^verbatim>\<open>worker\<close>),
  in three parts as in the source. The result is the counters and the calls made, in
  order. Each increment is made under the lock. Sending the invite: a return counts as
  invited, any exception as failed.
\<close>

definition send_invite ::
  "groups_api \<Rightarrow> string \<Rightarrow> player \<Rightarrow> counters \<Rightarrow> counters \<times> api_call list" where
  "send_invite api group_id p c =
     (case create_group_invite api group_id (id' p) of
        Returns u \<Rightarrow> (c\<lparr>invited_count := invited_count c + 1\<rparr>, [CreateGroupInvite group_id (id' p)])
      | Raises e \<Rightarrow> (c\<lparr>failed_count := failed_count c + 1\<rparr>, [CreateGroupInvite group_id (id' p)]))"

text \<open>
  The check for a pending invite, reached with \<^verbatim>\<open>should_invite\<close> still true. An
  \<^verbatim>\<open>ApiException\<close> is logged and the invite is sent all the same; another exception
  leaves the body for the outer handler, which counts a failure.
\<close>

definition check_pending ::
  "groups_api \<Rightarrow> string \<Rightarrow> player \<Rightarrow> counters \<Rightarrow> counters \<times> api_call list" where
  "check_pending api group_id p c =
     (case get_group_invites api group_id of
        Returns NoData \<Rightarrow>
          (let (c', calls) = send_invite api group_id p c in (c', GetGroupInvites group_id # calls))
      | Returns (Data pending_invites) \<Rightarrow>
          if id' p \<in> set pending_invites
          then (c\<lparr>skipped_count := skipped_count c + 1\<rparr>, [GetGroupInvites group_id])
          else (let (c', calls) = send_invite api group_id p c in (c', GetGroupInvites group_id # calls))
      | Raises (ApiException status) \<Rightarrow>
          (let (c', calls) = send_invite api group_id p c in (c', GetGroupInvites group_id # calls))
      | Raises OtherException \<Rightarrow>
          (c\<lparr>failed_count := failed_count c + 1\<rparr>, [GetGroupInvites group_id]))"

text \<open>
  The membership check comes first. A membership that is true counts as skipped and
  clears \<^verbatim>\<open>should_invite\<close>, so neither the pending check nor the invite follows. An
  \<^verbatim>\<open>ApiException\<close> (404 is the expected one) leaves \<^verbatim>\<open>should_invite\<close> true.
\<close>

definition invite_player ::
  "groups_api \<Rightarrow> string \<Rightarrow> player \<Rightarrow> counters \<Rightarrow> counters \<times> api_call list" where
  "invite_player api group_id p c =
     (case get_group_member api group_id (id' p) of
        Returns membership \<Rightarrow>
          if membership
          then (c\<lparr>skipped_count := skipped_count c + 1\<rparr>, [GetGroupMember group_id (id' p)])
          else (let (c', calls) = check_pending api group_id p c
                in (c', GetGroupMember group_id (id' p) # calls))
      | Raises (ApiException status) \<Rightarrow>
          (let (c', calls) = check_pending api group_id p c
           in (c', GetGroupMember group_id (id' p) # calls))
      | Raises OtherException \<Rightarrow>
          (c\<lparr>failed_count := failed_count c + 1\<rparr>, [GetGroupMember group_id (id' p)]))"

subsection \<open>The pool\<close>

text \<open>
  The worker threads share the queue, the flag \<^verbatim>\<open>self.is_inviting\<close> and the
  counters. Each thread is at one of the places of \<^verbatim>\<open>worker\<close> where it reads or
  writes what is shared: the two halves of the loop test
  (\<^verbatim>\<open>not player_queue.empty()\<close>, then \<^verbatim>\<open>self.is_inviting\<close>), the check before
  the dequeue, the dequeue, the check after it (holding the player), the body for the
  player, the check before the wait, the wait, or it has left the loop. A run is a
  schedule: a list of events, each a step of one thread (with the remote service as it
  answers during that step) or a call of \<^verbatim>\<open>stop_inviting\<close> from the GUI. No
  other invitation is started while the run lasts, so nothing else writes the flag.
\<close>

datatype place =
  WhileEmpty
| WhileFlag
| CheckBeforeGet
| Get
| CheckAfterGet player
| Process player
| CheckBeforeWait
| Sleep
| Exited

record pool =
  player_queue :: "player list"
  is_inviting :: bool
  counts :: counters
  threads :: "place list"
  api_calls :: "api_call list"

definition goto :: "nat \<Rightarrow> place \<Rightarrow> pool \<Rightarrow> pool" where
  "goto i pl s = s\<lparr>threads := (threads s)[i := pl]\<rparr>"

text \<open>
  One step of thread \<open>i\<close>. \<^verbatim>\<open>player_queue.get(block=False)\<close> on an empty queue
  raises \<^verbatim>\<open>queue.Empty\<close>, which the handler of the loop answers with
  \<^verbatim>\<open>break\<close>. \<^verbatim>\<open>player_queue.put(player)\<close> appends at the end of the queue.
\<close>

definition worker_step :: "groups_api \<Rightarrow> string \<Rightarrow> nat \<Rightarrow> pool \<Rightarrow> pool" where
  "worker_step api group_id i s =
     (if i < length (threads s) then
        (case threads s ! i of
           WhileEmpty \<Rightarrow> goto i (if player_queue s = [] then Exited else WhileFlag) s
         | WhileFlag \<Rightarrow> goto i (if is_inviting s then CheckBeforeGet else Exited) s
         | CheckBeforeGet \<Rightarrow> goto i (if \<not> is_inviting s then Exited else Get) s
         | Get \<Rightarrow>
             (case player_queue s of
                [] \<Rightarrow> goto i Exited s
              | p # rest \<Rightarrow> goto i (CheckAfterGet p) (s\<lparr>player_queue := rest\<rparr>))
         | CheckAfterGet p \<Rightarrow>
             if \<not> is_inviting s
             then goto i Exited (s\<lparr>player_queue := player_queue s @ [p]\<rparr>)
             else goto i (Process p) s
         | Process p \<Rightarrow>
             (let (c, calls) = invite_player api group_id p (counts s)
              in goto i CheckBeforeWait (s\<lparr>counts := c, api_calls := api_calls s @ calls\<rparr>))
         | CheckBeforeWait \<Rightarrow> goto i (if \<not> is_inviting s then Exited else Sleep) s
         | Sleep \<Rightarrow> goto i WhileEmpty s
         | Exited \<Rightarrow> s)
      else s)"

text \<open>\<^verbatim>\<open>stop_inviting\<close>: clears the flag when it is set.\<close>

definition stop_inviting :: "pool \<Rightarrow> pool" where
  "stop_inviting s = (if \<not> is_inviting s then s else s\<lparr>is_inviting := False\<rparr>)"

datatype event = Step nat groups_api | Stop

fun run :: "string \<Rightarrow> pool \<Rightarrow> event list \<Rightarrow> pool" where
  "run group_id s [] = s"
| "run group_id s (Step i api # evs) = run group_id (worker_step api group_id i s) evs"
| "run group_id s (Stop # evs) = run group_id (stop_inviting s) evs"

text \<open>
  \<^verbatim>\<open>_invite_thread_pool\<close>: the queue holds the players, \<^verbatim>\<open>self.is_inviting\<close>
  was set by the caller, and \<^verbatim>\<open>min(max_threads, total_players)\<close> threads start at
  the loop test. When every thread has left its loop (the joins return) the completion
  message is chosen by the flag, and the flag is cleared. The body for one player is one
  step of its thread: the calls it makes read neither the queue nor the flag, and each
  increment of a counter is made under the lock. \<open>str_of\<close> is \<^verbatim>\<open>str\<close> on a count.
\<close>

definition start_pool :: "player list \<Rightarrow> int \<Rightarrow> pool" where
  "start_pool players max_threads =
     \<lparr>player_queue = players, is_inviting = True,
      counts = \<lparr>invited_count = 0, failed_count = 0, skipped_count = 0\<rparr>,
      threads = replicate (nat (min max_threads (int (length players)))) WhileEmpty,
      api_calls = []\<rparr>"







section \<open>Logout\<close>

text \<open>
  The fields of \<^verbatim>\<open>VRChatLogic\<close> that \<^verbatim>\<open>logout\<close> reads or writes; an API object
  is a handle. The two calls inside the \<^verbatim>\<open>try\<close> (\<^verbatim>\<open>self.auth_api.logout()\<close> and
  \<^verbatim>\<open>self.config_manager.clear_saved_login()\<close>) return or raise an exception, which
  the \<^verbatim>\<open>except\<close> logs; the \<^verbatim>\<open>finally\<close> block resets the client either way.
  The result is the state, with whether the remote logout was called and whether the
  saved login was cleared.
\<close>

datatype outcome = Succeeds | Fails

record client =
  api_client :: "nat option"
  auth_api :: "nat option"
  groups_api_handle :: "nat option"
  users_api :: "nat option"
  worlds_api :: "nat option"
  current_user :: "player option"
  is_logged_in :: bool
  config_manager :: "nat option"

definition reset_client :: "client \<Rightarrow> client" where
  "reset_client c =
     c\<lparr>api_client := None, auth_api := None, groups_api_handle := None, users_api := None,
       worlds_api := None, current_user := None, is_logged_in := False\<rparr>"

definition logout :: "outcome \<Rightarrow> outcome \<Rightarrow> bool \<Rightarrow> client \<Rightarrow> client \<times> bool \<times> bool" where
  "logout remote_logout clear_saved_login clear_saved_credentials c =
     (if \<not> is_logged_in c then (c, False, False)
      else
        (let called = (auth_api c \<noteq> None);
             reached = (\<not> called \<or> remote_logout = Succeeds);
             cleared = (reached \<and> clear_saved_credentials \<and> config_manager c \<noteq> None
                        \<and> clear_saved_login = Succeeds)
         in (reset_client c, called, cleared)))"

section \<open>The vocabulary of the specification\<close>

text \<open>
  The specification speaks of events, of presence and of a backfill in three steps. The
  definitions of this section follow its words; the theorems compare them with the
  functions above, which follow the source.

  \<open>event_of_line\<close> is the specification's extractor: zero or one event per line, the
  three patterns in priority order. A session change carries the id and the text of the
  timestamp, a join or a leave the id, the name and the parsed timestamp.
\<close>

datatype log_event =
  SessionChanged string string
| UserEntered string string datetime
| UserLeft string string datetime

definition event_of_line :: "string \<Rightarrow> log_event option" where
  "event_of_line line =
     (if contains ''Joining'' line \<and> contains ''Room'' line then
        (case instance_line line of
           None \<Rightarrow> None
         | Some (timestamp_str, iid) \<Rightarrow> Some (SessionChanged iid timestamp_str))
      else if contains ''[Behaviour] OnPlayerJoined'' line then
        (case timestamp_match line of
           None \<Rightarrow> None
         | Some timestamp_str \<Rightarrow>
             (case player_match ''OnPlayerJoined'' line of
                None \<Rightarrow> None
              | Some (nm, ident) \<Rightarrow>
                  (case strptime timestamp_str of
                     None \<Rightarrow> None
                   | Some t \<Rightarrow> Some (UserEntered (strip ident) (strip nm) t))))
      else if contains ''[Behaviour] OnPlayerLeft'' line then
        (case timestamp_match line of
           None \<Rightarrow> None
         | Some timestamp_str \<Rightarrow>
             (case player_match ''OnPlayerLeft'' line of
                None \<Rightarrow> None
              | Some (nm, ident) \<Rightarrow>
                  (case strptime timestamp_str of
                     None \<Rightarrow> None
                   | Some t \<Rightarrow> Some (UserLeft (strip ident) (strip nm) t))))
      else None)"

text \<open>The specification's \<^verbatim>\<open>apply(event)\<close>.\<close>

definition apply_event :: "watcher \<Rightarrow> log_event \<Rightarrow> watcher" where
  "apply_event w e =
     (case e of
        SessionChanged iid timestamp_str \<Rightarrow> w\<lparr>current_instance := Some iid, player_events := []\<rparr>
      | UserEntered u n t \<Rightarrow>
          w\<lparr>player_events := append_join u t (ensure_player u n (player_events w)),
            logic_player_join_times := AList.update u t (logic_player_join_times w)\<rparr>
      | UserLeft u n t \<Rightarrow>
          w\<lparr>player_events := append_leave u t (ensure_player u n (player_events w)),
            logic_player_join_times := AList.delete u (logic_player_join_times w)\<rparr>)"

text \<open>
  The timestamp of a line (the first text of the timestamp's shape, parsed), and the
  lines on which parsing does not raise: no timestamp text, or one that is a date.
\<close>

definition line_time :: "string \<Rightarrow> datetime option" where
  "line_time line = (case timestamp_match line of None \<Rightarrow> None | Some ts \<Rightarrow> strptime ts)"


text \<open>
  A leading timestamp: the line starts with a text of the timestamp's shape that is a
  date.
\<close>

definition leading_timestamp :: "string \<Rightarrow> datetime option" where
  "leading_timestamp line =
     (if match_atoms timestamp_pattern line then strptime (take 19 line) else None)"






text \<open>
  Presence: a tracked user whose join count exceeds the leave count. The invariant of the
  specification: no record has more leaves than joins. A sequence of lines has its leaves
  matched when each leave line names a user who is present when the line is processed.
\<close>

definition present :: "watcher \<Rightarrow> string \<Rightarrow> bool" where
  "present w u =
     (case map_of (player_events w) u of
        None \<Rightarrow> False
      | Some e \<Rightarrow> length (leaves e) < length (joins e))"

definition leaves_le_joins :: "watcher \<Rightarrow> bool" where
  "leaves_le_joins w = list_all (\<lambda>(u, e). length (leaves e) \<le> length (joins e)) (player_events w)"

fun leaves_matched :: "watcher \<Rightarrow> string list \<Rightarrow> bool" where
  "leaves_matched w [] = True"
| "leaves_matched w (line # rest) =
     ((case event_of_line line of
         Some (UserLeft u n t) \<Rightarrow> present w u
       | _ \<Rightarrow> True)
      \<and> leaves_matched (process_log_line w line) rest)"

text \<open>
  Counting candidates in a pool: those a thread holds (dequeued and not yet counted),
  those being processed, and those counted.
\<close>

definition holds_player :: "place \<Rightarrow> bool" where
  "holds_player pl = (case pl of CheckAfterGet p \<Rightarrow> True | Process p \<Rightarrow> True | _ \<Rightarrow> False)"

definition processes_player :: "place \<Rightarrow> bool" where
  "processes_player pl = (case pl of Process p \<Rightarrow> True | _ \<Rightarrow> False)"

definition held :: "pool \<Rightarrow> nat" where
  "held s = length (filter holds_player (threads s))"

definition in_process :: "pool \<Rightarrow> nat" where
  "in_process s = length (filter processes_player (threads s))"





text \<open>
  The snapshot of the specification, read off \<^verbatim>\<open>get_active_players\<close>: the ids of
  the present players, and the \<^verbatim>\<open>joined_at\<close> reported for an id.
\<close>

definition snapshot_ids :: "watcher \<Rightarrow> string list" where
  "snapshot_ids w = (case get_active_players w of None \<Rightarrow> [] | Some (ps, ts) \<Rightarrow> map id' ps)"

definition joined_at :: "watcher \<Rightarrow> string \<Rightarrow> datetime option" where
  "joined_at w u = (case get_active_players w of None \<Rightarrow> None | Some (ps, ts) \<Rightarrow> map_of ts u)"

text \<open>
  The four exclusions of the specification, on the id of a present player: the acting
  user's own id, an id in the member list, an id in the pending-invite list, and a time
  in the instance, now minus \<^verbatim>\<open>joined_at\<close>, less than the minimum dwell time. The
  time in the instance is in microseconds and the minimum dwell time in seconds.
\<close>

definition time_in_instance :: "datetime \<Rightarrow> datetime \<Rightarrow> int" where
  "time_in_instance now joined = to_microseconds now - to_microseconds joined"

definition excluded ::
  "watcher \<Rightarrow> string \<Rightarrow> string list \<Rightarrow> string list \<Rightarrow> datetime \<Rightarrow> int \<Rightarrow> string \<Rightarrow> bool" where
  "excluded w uid group_members pending_invites now min_dwell u =
     (u = uid \<or> u \<in> set group_members \<or> u \<in> set pending_invites
      \<or> (case joined_at w u of
            None \<Rightarrow> False
          | Some joined \<Rightarrow> time_in_instance now joined < min_dwell * 1000000))"

section \<open>Concrete inputs\<close>

text \<open>Inputs on which the theorems below are instantiated.\<close>

definition demo_client :: client where
  "demo_client =
     \<lparr>api_client = Some 1, auth_api = Some 2, groups_api_handle = Some 3,
      users_api = Some 4, worlds_api = Some 5,
      current_user = Some \<lparr>id' = ''usr_me'', display_name = ''Me''\<rparr>,
      is_logged_in = True, config_manager = Some 6\<rparr>"

definition bob :: player where
  "bob = \<lparr>id' = ''usr_1'', display_name = ''Bob''\<rparr>"

definition zero_counters :: counters where
  "zero_counters = \<lparr>invited_count = 0, failed_count = 0, skipped_count = 0\<rparr>"

definition api_not_member :: groups_api where
  "api_not_member =
     \<lparr>get_group_member = (\<lambda>g u. Raises (ApiException 404)),
      get_group_invites = (\<lambda>g. Returns NoData),
      create_group_invite = (\<lambda>g u. Returns ())\<rparr>"

definition api_member :: groups_api where
  "api_member =
     \<lparr>get_group_member = (\<lambda>g u. Returns True),
      get_group_invites = (\<lambda>g. Returns NoData),
      create_group_invite = (\<lambda>g u. Returns ())\<rparr>"

definition line_join_bob :: string where
  "line_join_bob = ''2024.01.01 10:00:05 [Behaviour] OnPlayerJoined Bob (usr_1)''"

definition line_join_bob_again :: string where
  "line_join_bob_again = ''2024.01.01 10:00:07 [Behaviour] OnPlayerJoined Bob (usr_1)''"

definition line_leave_bob :: string where
  "line_leave_bob = ''2024.01.01 10:00:09 [Behaviour] OnPlayerLeft Bob (usr_1)''"

definition line_no_timestamp :: string where
  "line_no_timestamp = ''[Behaviour] OnPlayerJoined Bob (usr_1)''"

definition line_late_timestamp :: string where
  "line_late_timestamp = ''Log 2024.01.01 10:00:05 [Behaviour] OnPlayerJoined Bob (usr_1)''"

definition line_bad_date_room :: string where
  "line_bad_date_room = ''2024.13.45 99:99:99 [Behaviour] Joining or Creating Room: X''"

definition line_bad_date_join :: string where
  "line_bad_date_join = ''2024.13.45 99:99:99 [Behaviour] OnPlayerJoined Bob (usr_1)''"


definition watcher_at_100 :: watcher where
  "watcher_at_100 = init_watcher\<lparr>file_position := 100, is_watching := True\<rparr>"







definition fs_missing :: "string \<Rightarrow> source" where
  "fs_missing path = Missing"

definition fs_unreadable :: "string \<Rightarrow> source" where
  "fs_unreadable path = Unreadable 10"


















definition watcher_bob_back :: watcher where
  "watcher_bob_back =
     foldl process_log_line init_watcher [line_join_bob, line_join_bob_again, line_leave_bob]"







section \<open>Properties of the watcher\<close>

lemma process_log_line_event:
  "process_log_line w line = (case event_of_line line of None \<Rightarrow> w | Some e \<Rightarrow> apply_event w e)"
proof (cases "contains ''Joining'' line \<and> contains ''Room'' line")
  case True
  then have r: "(contains ''Joining'' line \<and> contains ''Room'' line) = True" by simp
  show ?thesis
    unfolding process_log_line_def event_of_line_def instance_line_def
    apply (simp only: r if_True)
    apply (simp add: apply_event_def split: option.split)
    done
next
  case False
  then have r: "(contains ''Joining'' line \<and> contains ''Room'' line) = False" by simp
  show ?thesis
  proof (cases "contains ''[Behaviour] OnPlayerJoined'' line")
    case True
    then have j: "contains ''[Behaviour] OnPlayerJoined'' line = True" by simp
    show ?thesis
      unfolding process_log_line_def event_of_line_def
      apply (simp only: r j if_True if_False)
      apply (simp add: apply_event_def Let_def split: option.split prod.split)
      done
  next
    case False
    then have j: "contains ''[Behaviour] OnPlayerJoined'' line = False" by simp
    show ?thesis
    proof (cases "contains ''[Behaviour] OnPlayerLeft'' line")
      case True
      then have l: "contains ''[Behaviour] OnPlayerLeft'' line = True" by simp
      show ?thesis
        unfolding process_log_line_def event_of_line_def
        apply (simp only: r j l if_True if_False)
        apply (simp add: apply_event_def Let_def split: option.split prod.split)
        done
    next
      case False
      then have l: "contains ''[Behaviour] OnPlayerLeft'' line = False" by simp
      show ?thesis
        unfolding process_log_line_def event_of_line_def
        apply (simp only: r j l if_True if_False)
        apply simp
        done
    qed
  qed
qed


lemma event_needs_timestamp:
  "timestamp_match line = None \<Longrightarrow> event_of_line line = None"
  by (auto simp: event_of_line_def instance_line_def split: option.splits)

lemma player_event_time:
  "event_of_line line = Some (UserEntered u n t) \<or> event_of_line line = Some (UserLeft u n t)
     \<Longrightarrow> line_time line = Some t"
  by (auto simp: event_of_line_def line_time_def split: if_splits option.splits prod.splits)

text \<open>
  Claim C8, as amended. The timestamp is searched anywhere in the line. A line with no
  text of the timestamp's shape produces no event: the state after the line is the state
  before it. A line whose timestamp text is not a date produces no join and no leave.
\<close>

theorem no_timestamp_no_event:
  "(timestamp_match line = None \<longrightarrow>
      event_of_line line = None \<and> process_log_line w line = w)
   \<and> (line_time line = None \<longrightarrow>
        (\<forall>u n t. event_of_line line \<noteq> Some (UserEntered u n t)
                 \<and> event_of_line line \<noteq> Some (UserLeft u n t))
        \<and> (process_log_line w line = w
            \<or> (\<exists>iid. process_log_line w line = w\<lparr>current_instance := Some iid, player_events := []\<rparr>)))"
proof (intro conjI impI)
  assume a: "timestamp_match line = None"
  then show "event_of_line line = None" by (rule event_needs_timestamp)
  then show "process_log_line w line = w" by (simp add: process_log_line_event)
next
  assume a: "line_time line = None"
  show b: "\<forall>u n t. event_of_line line \<noteq> Some (UserEntered u n t)
                 \<and> event_of_line line \<noteq> Some (UserLeft u n t)"
    using a player_event_time by fastforce
  show "process_log_line w line = w
            \<or> (\<exists>iid. process_log_line w line = w\<lparr>current_instance := Some iid, player_events := []\<rparr>)"
  proof (cases "event_of_line line")
    case None
    then show ?thesis by (simp add: process_log_line_event)
  next
    case (Some e)
    with b show ?thesis
      by (cases e) (auto simp: process_log_line_event apply_event_def)
  qed
qed

theorem no_timestamp_no_event_witness:
  "timestamp_match line_no_timestamp = None
   \<and> process_log_line init_watcher line_no_timestamp = init_watcher
   \<and> line_time line_bad_date_join = None
   \<and> event_of_line line_bad_date_join = None"
proof -
  have a: "timestamp_match line_no_timestamp = None" by code_simp
  have b: "line_time line_bad_date_join = None" by code_simp
  have c: "event_of_line line_bad_date_join = None" by code_simp
  from no_timestamp_no_event[of line_no_timestamp init_watcher] a
  have d: "process_log_line init_watcher line_no_timestamp = init_watcher" by blast
  show ?thesis using a b c d by blast
qed

text \<open>
  The claim as stated fails twice. A join line whose timestamp does not lead the line is
  recorded; a room line that starts with a text of the timestamp's shape that is no date
  (month 13, hour 99) changes the session.
\<close>

theorem leading_timestamp_counterexample:
  "leading_timestamp line_late_timestamp = None
   \<and> player_events (process_log_line init_watcher line_late_timestamp)
       = [(''usr_1'', \<lparr>name = ''Bob'', joins = [(2024, 1, 1, 10, 0, 5, 0)], leaves = []\<rparr>)]
   \<and> leading_timestamp line_bad_date_room = None
   \<and> current_instance (process_log_line init_watcher line_bad_date_room) = Some ''X''"
proof -
  have a: "leading_timestamp line_late_timestamp = None" by code_simp
  have b: "player_events (process_log_line init_watcher line_late_timestamp)
       = [(''usr_1'', \<lparr>name = ''Bob'', joins = [(2024, 1, 1, 10, 0, 5, 0)], leaves = []\<rparr>)]"
    by code_simp
  have c: "leading_timestamp line_bad_date_room = None" by code_simp
  have d: "current_instance (process_log_line init_watcher line_bad_date_room) = Some ''X''"
    by code_simp
  show ?thesis using a b c d by blast
qed

lemma py_max_Max:
  assumes "ts \<noteq> []" shows "py_max ts = Some (Max (set ts))"
proof (cases ts)
  case Nil
  with assms show ?thesis by simp
next
  case (Cons t ts')
  have "Max (set (t # ts')) = fold max ts' t" by (rule Max.set_eq_fold)
  with Cons show ?thesis by (simp add: py_max_def)
qed

lemma active_players_loop_eq:
  "active_players_loop evs =
     Some (map (\<lambda>(u, e). \<lparr>id' = u, display_name = name e\<rparr>)
             (filter (\<lambda>(u, e). length (leaves e) < length (joins e)) evs),
           map (\<lambda>(u, e). (u, Max (set (joins e))))
             (filter (\<lambda>(u, e). length (leaves e) < length (joins e)) evs))"
proof (induction evs)
  case Nil
  then show ?case by simp
next
  case (Cons a evs)
  obtain u e where a: "a = (u, e)" by (cases a)
  show ?case
  proof (cases "length (leaves e) < length (joins e)")
    case True
    then have "joins e \<noteq> []" by auto
    with True Cons a show ?thesis by (simp add: py_max_Max)
  next
    case False
    with Cons a show ?thesis by simp
  qed
qed

lemma snapshot_ids_eq:
  "snapshot_ids w = map fst (filter (\<lambda>(u, e). length (leaves e) < length (joins e)) (player_events w))"
  by (simp add: snapshot_ids_def get_active_players_def active_players_loop_eq comp_def
      case_prod_unfold)

lemma joined_at_eq:
  "joined_at w u = map_of (map (\<lambda>(u, e). (u, Max (set (joins e))))
      (filter (\<lambda>(u, e). length (leaves e) < length (joins e)) (player_events w))) u"
  by (simp add: joined_at_def get_active_players_def active_players_loop_eq)

lemma snapshot_ids_present:
  assumes "distinct (map fst evs)"
  shows "u \<in> set (map fst (filter (\<lambda>(u, e). length (leaves e) < length (joins e)) evs))
     \<longleftrightarrow> (case map_of evs u of None \<Rightarrow> False | Some e \<Rightarrow> length (leaves e) < length (joins e))"
  using assms
proof (induction evs)
  case Nil
  then show ?case by simp
next
  case (Cons a evs)
  obtain v e where a: "a = (v, e)" by (cases a)
  from Cons.prems a have nv: "v \<notin> fst ` set evs" and d: "distinct (map fst evs)" by auto
  show ?case
  proof (cases "u = v")
    case True
    with nv have "u \<notin> fst ` set (filter (\<lambda>(u, e). length (leaves e) < length (joins e)) evs)"
      by auto
    with True a show ?thesis by (auto simp: image_iff)
  next
    case False
    with Cons.IH[OF d] a show ?thesis by auto
  qed
qed

lemma joined_at_present:
  assumes "distinct (map fst evs)" "map_of evs u = Some e" "length (leaves e) < length (joins e)"
  shows "map_of (map (\<lambda>(u, e). (u, Max (set (joins e))))
      (filter (\<lambda>(u, e). length (leaves e) < length (joins e)) evs)) u = Some (Max (set (joins e)))"
  using assms
proof (induction evs)
  case Nil
  then show ?case by simp
next
  case (Cons a evs)
  obtain v f where a: "a = (v, f)" by (cases a)
  show ?case
  proof (cases "u = v")
    case True
    with Cons.prems a show ?thesis by simp
  next
    case False
    with Cons a show ?thesis by simp
  qed
qed
lemma present_snapshot:
  assumes "distinct (map fst (player_events w))"
  shows "u \<in> set (snapshot_ids w) \<longleftrightarrow> present w u"
  using snapshot_ids_present[OF assms, of u] by (simp add: snapshot_ids_eq present_def)

lemma joined_at_Max:
  assumes "distinct (map fst (player_events w))" "map_of (player_events w) u = Some e"
    "length (leaves e) < length (joins e)"
  shows "joined_at w u = Some (Max (set (joins e)))"
  using joined_at_present[OF assms] by (simp add: joined_at_eq)

lemma map_of_entered:
  "map_of (player_events (apply_event w (UserEntered u n t))) v =
     (if v = u then
        Some (case map_of (player_events w) u of
                None \<Rightarrow> \<lparr>name = n, joins = [t], leaves = []\<rparr>
              | Some e \<Rightarrow> e\<lparr>joins := joins e @ [t]\<rparr>)
      else map_of (player_events w) v)"
  by (simp add: apply_event_def append_join_def ensure_player_def AList.map_of_map_entry
      AList.update_conv' split: option.split)

lemma map_of_left:
  "map_of (player_events (apply_event w (UserLeft u n t))) v =
     (if v = u then
        Some (case map_of (player_events w) u of
                None \<Rightarrow> \<lparr>name = n, joins = [], leaves = [t]\<rparr>
              | Some e \<Rightarrow> e\<lparr>leaves := leaves e @ [t]\<rparr>)
      else map_of (player_events w) v)"
  by (simp add: apply_event_def append_leave_def ensure_player_def AList.map_of_map_entry
      AList.update_conv' split: option.split)

lemma distinct_apply_event:
  assumes "distinct (map fst (player_events w))"
  shows "distinct (map fst (player_events (apply_event w e)))"
  using assms
  by (cases e)
     (simp_all add: apply_event_def append_join_def append_leave_def ensure_player_def
        AList.distinct_map_entry AList.distinct_update)

lemma distinct_process_log_line:
  assumes "distinct (map fst (player_events w))"
  shows "distinct (map fst (player_events (process_log_line w line)))"
  using assms by (simp add: process_log_line_event distinct_apply_event split: option.split)

lemma entered_then_left_absent:
  assumes "\<not> present w u"
  shows "\<not> present (apply_event (apply_event w (UserEntered u n1 t1)) (UserLeft u n2 t2)) u"
  using assms
  by (auto simp: present_def map_of_left map_of_entered split: option.splits)

lemma entered_twice_present:
  assumes "map_of (player_events w) u = None"
  shows "map_of (player_events (apply_event (apply_event w (UserEntered u n1 t1)) (UserEntered u n2 t2))) u
           = Some \<lparr>name = n1, joins = [t1, t2], leaves = []\<rparr>"
  using assms by (simp add: map_of_entered)

text \<open>
  Claim C2. \<^verbatim>\<open>get_active_players\<close> always returns. For every tracked user record
  (the ids are the keys of a dict, hence distinct) the user is in the snapshot exactly
  when the record has more joins than leaves, and the reported join time is then the
  maximum of the joins; an untracked user is not in the snapshot. A join line followed by
  a leave line for a user who was not present leaves the user absent; two join lines for a
  user not yet tracked leave the user present, with the later of the two timestamps.
  Processing a line keeps the ids distinct.
\<close>

theorem presence_follows_counts:
  assumes "distinct (map fst (player_events w))"
  shows "(\<exists>ps ts. get_active_players w = Some (ps, ts))
    \<and> (\<forall>v e. map_of (player_events w) v = Some e \<longrightarrow>
          (v \<in> set (snapshot_ids w) \<longleftrightarrow> length (leaves e) < length (joins e))
          \<and> (length (leaves e) < length (joins e) \<longrightarrow> joined_at w v = Some (Max (set (joins e)))))
    \<and> (\<forall>v. map_of (player_events w) v = None \<longrightarrow> v \<notin> set (snapshot_ids w))
    \<and> (event_of_line l1 = Some (UserEntered u n1 t1) \<and> event_of_line l2 = Some (UserLeft u n2 t2)
          \<and> \<not> present w u \<longrightarrow>
        u \<notin> set (snapshot_ids (process_log_line (process_log_line w l1) l2)))
    \<and> (event_of_line l1 = Some (UserEntered u n1 t1) \<and> event_of_line l3 = Some (UserEntered u n3 t3)
          \<and> map_of (player_events w) u = None \<longrightarrow>
        u \<in> set (snapshot_ids (process_log_line (process_log_line w l1) l3))
        \<and> joined_at (process_log_line (process_log_line w l1) l3) u = Some (max t1 t3))
    \<and> distinct (map fst (player_events (process_log_line w l1)))"
proof (intro conjI allI impI)
  show "\<exists>ps ts. get_active_players w = Some (ps, ts)"
    by (simp add: get_active_players_def active_players_loop_eq)
next
  fix v e assume m: "map_of (player_events w) v = Some e"
  show "v \<in> set (snapshot_ids w) \<longleftrightarrow> length (leaves e) < length (joins e)"
    using m by (simp add: present_snapshot[OF assms] present_def)
  assume "length (leaves e) < length (joins e)"
  with m show "joined_at w v = Some (Max (set (joins e)))"
    by (rule joined_at_Max[OF assms])
next
  fix v assume "map_of (player_events w) v = None"
  then show "v \<notin> set (snapshot_ids w)"
    by (simp add: present_snapshot[OF assms] present_def)
next
  assume a: "event_of_line l1 = Some (UserEntered u n1 t1) \<and> event_of_line l2 = Some (UserLeft u n2 t2)
          \<and> \<not> present w u"
  let ?w = "process_log_line (process_log_line w l1) l2"
  have d: "distinct (map fst (player_events ?w))"
    by (intro distinct_process_log_line assms)
  from a have "\<not> present ?w u"
    by (simp add: process_log_line_event entered_then_left_absent)
  then show "u \<notin> set (snapshot_ids ?w)"
    by (simp add: present_snapshot[OF d])
next
  assume a: "event_of_line l1 = Some (UserEntered u n1 t1) \<and> event_of_line l3 = Some (UserEntered u n3 t3)
          \<and> map_of (player_events w) u = None"
  let ?w = "process_log_line (process_log_line w l1) l3"
  have d: "distinct (map fst (player_events ?w))"
    by (intro distinct_process_log_line assms)
  from a have m: "map_of (player_events ?w) u = Some \<lparr>name = n1, joins = [t1, t3], leaves = []\<rparr>"
    by (simp add: process_log_line_event entered_twice_present)
  then show "u \<in> set (snapshot_ids ?w)"
    by (simp add: present_snapshot[OF d] present_def)
  from joined_at_Max[OF d m] show "joined_at ?w u = Some (max t1 t3)"
    by (simp add: max.commute)
next
  show "distinct (map fst (player_events (process_log_line w l1)))"
    by (intro distinct_process_log_line assms)
qed
theorem presence_follows_counts_witness:
  "distinct (map fst (player_events init_watcher))
   \<and> event_of_line line_join_bob = Some (UserEntered ''usr_1'' ''Bob'' (2024, 1, 1, 10, 0, 5, 0))
   \<and> event_of_line line_leave_bob = Some (UserLeft ''usr_1'' ''Bob'' (2024, 1, 1, 10, 0, 9, 0))
   \<and> event_of_line line_join_bob_again = Some (UserEntered ''usr_1'' ''Bob'' (2024, 1, 1, 10, 0, 7, 0))
   \<and> ''usr_1'' \<notin> set (snapshot_ids (process_log_line (process_log_line init_watcher line_join_bob) line_leave_bob))
   \<and> ''usr_1'' \<in> set (snapshot_ids (process_log_line (process_log_line init_watcher line_join_bob) line_join_bob_again))
   \<and> joined_at (process_log_line (process_log_line init_watcher line_join_bob) line_join_bob_again) ''usr_1''
       = Some (2024, 1, 1, 10, 0, 7, 0)"
proof -
  have d: "distinct (map fst (player_events init_watcher))" by (simp add: init_watcher_def)
  have n: "map_of (player_events init_watcher) ''usr_1'' = None" by (simp add: init_watcher_def)
  then have p: "\<not> present init_watcher ''usr_1''" by (simp add: present_def)
  have e1: "event_of_line line_join_bob = Some (UserEntered ''usr_1'' ''Bob'' (2024, 1, 1, 10, 0, 5, 0))"
    by code_simp
  have e2: "event_of_line line_leave_bob = Some (UserLeft ''usr_1'' ''Bob'' (2024, 1, 1, 10, 0, 9, 0))"
    by code_simp
  have e3: "event_of_line line_join_bob_again = Some (UserEntered ''usr_1'' ''Bob'' (2024, 1, 1, 10, 0, 7, 0))"
    by code_simp
  note t = presence_follows_counts[OF d, of line_join_bob "''usr_1''" "''Bob''"
      "(2024, 1, 1, 10, 0, 5, 0)" line_leave_bob "''Bob''" "(2024, 1, 1, 10, 0, 9, 0)"
      line_join_bob_again "''Bob''" "(2024, 1, 1, 10, 0, 7, 0)"]
  from t e1 e2 p have a: "''usr_1'' \<notin> set (snapshot_ids
      (process_log_line (process_log_line init_watcher line_join_bob) line_leave_bob))"
    by blast
  from t e1 e3 n have b: "''usr_1'' \<in> set (snapshot_ids
      (process_log_line (process_log_line init_watcher line_join_bob) line_join_bob_again))
    \<and> joined_at (process_log_line (process_log_line init_watcher line_join_bob) line_join_bob_again) ''usr_1''
       = Some (max (2024, 1, 1, 10, 0, 5, 0) (2024, 1, 1, 10, 0, 7, 0))"
    by blast
  have m: "max (2024, 1, 1, 10, 0, 5, 0) (2024, 1, 1, 10, 0, 7, 0) = ((2024, 1, 1, 10, 0, 7, 0) :: datetime)"
    by (simp add: max_def)
  show ?thesis using d e1 e2 e3 a b m by simp
qed

lemma list_all_update:
  assumes "list_all P xs" "P (k, v)"
  shows "list_all P (AList.update k v xs)"
  using assms by (induction xs) auto

lemma list_all_map_entry:
  assumes "list_all P xs" "\<And>e. map_of xs k = Some e \<Longrightarrow> P (k, f e)"
  shows "list_all P (AList.map_entry k f xs)"
  using assms
proof (induction xs)
  case Nil
  then show ?case by simp
next
  case (Cons a xs)
  then show ?case by (cases a) auto
qed

lemma leaves_le_joins_apply_event:
  assumes "leaves_le_joins w" "\<And>u n t. e = UserLeft u n t \<Longrightarrow> present w u"
  shows "leaves_le_joins (apply_event w e)"
proof (cases e)
  case (SessionChanged iid ts)
  then show ?thesis by (simp add: leaves_le_joins_def apply_event_def)
next
  case (UserEntered u n t)
  let ?evs = "ensure_player u n (player_events w)"
  have a: "list_all (\<lambda>(u, e). length (leaves e) \<le> length (joins e)) ?evs"
    using assms(1) by (simp add: ensure_player_def leaves_le_joins_def list_all_update)
  have "list_all (\<lambda>(u, e). length (leaves e) \<le> length (joins e)) (append_join u t ?evs)"
    unfolding append_join_def
  proof (rule list_all_map_entry[OF a])
    fix e' assume "map_of ?evs u = Some e'"
    then have "(u, e') \<in> set ?evs" by (rule map_of_SomeD)
    with a have "length (leaves e') \<le> length (joins e')" by (auto simp: list_all_iff)
    then show "case (u, e'\<lparr>joins := joins e' @ [t]\<rparr>) of (u, e) \<Rightarrow> length (leaves e) \<le> length (joins e)"
      by simp
  qed
  with UserEntered show ?thesis by (simp add: leaves_le_joins_def apply_event_def)
next
  case (UserLeft u n t)
  with assms(2) have p: "present w u" by simp
  then obtain e0 where e0: "map_of (player_events w) u = Some e0" "length (leaves e0) < length (joins e0)"
    by (auto simp: present_def split: option.splits)
  then have en: "ensure_player u n (player_events w) = player_events w"
    by (simp add: ensure_player_def)
  have "list_all (\<lambda>(u, e). length (leaves e) \<le> length (joins e)) (append_leave u t (player_events w))"
    unfolding append_leave_def
  proof (rule list_all_map_entry)
    show "list_all (\<lambda>(u, e). length (leaves e) \<le> length (joins e)) (player_events w)"
      using assms(1) by (simp add: leaves_le_joins_def)
    fix e' assume "map_of (player_events w) u = Some e'"
    with e0 have "e' = e0" by simp
    with e0 show "case (u, e'\<lparr>leaves := leaves e' @ [t]\<rparr>) of (u, e) \<Rightarrow> length (leaves e) \<le> length (joins e)"
      by simp
  qed
  with UserLeft en show ?thesis by (simp add: leaves_le_joins_def apply_event_def)
qed

text \<open>
  Claim C3, as amended. From a state in which no record has more leaves than joins, a
  sequence of lines whose leave lines each name a user present at that point (more joins
  than leaves) leads to a state in which no record has more leaves than joins.
\<close>

theorem matched_leaves_keep_invariant:
  assumes "leaves_le_joins w" "leaves_matched w lines"
  shows "leaves_le_joins (foldl process_log_line w lines)"
  using assms
proof (induction lines arbitrary: w)
  case Nil
  then show ?case by simp
next
  case (Cons line rest)
  from Cons.prems(2) have m: "leaves_matched (process_log_line w line) rest"
    and l: "\<And>u n t. event_of_line line = Some (UserLeft u n t) \<Longrightarrow> present w u"
    by auto
  have "leaves_le_joins (process_log_line w line)"
  proof (cases "event_of_line line")
    case None
    with Cons.prems(1) show ?thesis by (simp add: process_log_line_event)
  next
    case (Some e)
    with l have "\<And>u n t. e = UserLeft u n t \<Longrightarrow> present w u" by simp
    with Cons.prems(1) have "leaves_le_joins (apply_event w e)"
      by (rule leaves_le_joins_apply_event)
    with Some show ?thesis by (simp add: process_log_line_event)
  qed
  from Cons.IH[OF this m] show ?case by simp
qed

theorem matched_leaves_keep_invariant_witness:
  "leaves_le_joins init_watcher
   \<and> leaves_matched init_watcher [line_join_bob, line_leave_bob]
   \<and> leaves_le_joins (foldl process_log_line init_watcher [line_join_bob, line_leave_bob])
   \<and> player_events (foldl process_log_line init_watcher [line_join_bob, line_leave_bob])
       = [(''usr_1'', \<lparr>name = ''Bob'', joins = [(2024, 1, 1, 10, 0, 5, 0)],
             leaves = [(2024, 1, 1, 10, 0, 9, 0)]\<rparr>)]"
proof -
  have a: "leaves_le_joins init_watcher" by (simp add: leaves_le_joins_def init_watcher_def)
  have b: "leaves_matched init_watcher [line_join_bob, line_leave_bob]" by code_simp
  have c: "player_events (foldl process_log_line init_watcher [line_join_bob, line_leave_bob])
       = [(''usr_1'', \<lparr>name = ''Bob'', joins = [(2024, 1, 1, 10, 0, 5, 0)],
             leaves = [(2024, 1, 1, 10, 0, 9, 0)]\<rparr>)]" by code_simp
  from matched_leaves_keep_invariant[OF a b] a b c show ?thesis by blast
qed

text \<open>
  The claim as stated fails on a single line: a leave line for a user with no join creates
  the record with one leave and no join.
\<close>

theorem leave_without_join_counterexample:
  "player_events (process_log_line init_watcher line_leave_bob)
     = [(''usr_1'', \<lparr>name = ''Bob'', joins = [], leaves = [(2024, 1, 1, 10, 0, 9, 0)]\<rparr>)]
   \<and> \<not> leaves_le_joins (process_log_line init_watcher line_leave_bob)"
proof -
  have a: "player_events (process_log_line init_watcher line_leave_bob)
     = [(''usr_1'', \<lparr>name = ''Bob'', joins = [], leaves = [(2024, 1, 1, 10, 0, 9, 0)]\<rparr>)]"
    by code_simp
  then have "\<not> leaves_le_joins (process_log_line init_watcher line_leave_bob)"
    by (simp add: leaves_le_joins_def)
  with a show ?thesis by blast
qed

lemma file_position_process_log_line [simp]:
  "file_position (process_log_line w line) = file_position w"
  by (simp add: process_log_line_event apply_event_def split: option.split log_event.split)

lemma file_position_foldl [simp]:
  "file_position (foldl process_log_line w lines) = file_position w"
  by (induction lines arbitrary: w) simp_all




lemma scan_unreadable:
  "scan_entire_log w (Unreadable n) = w"
  by (simp add: scan_entire_log_def find_current_instance_def position_at_end_def Let_def)

text \<open>
  Claim C9, as amended. A start on a running watcher changes nothing (no scan, no new
  offset) and is reported as already running: \<^verbatim>\<open>start_log_watching\<close> returns true
  with its message, the watcher's own \<^verbatim>\<open>start_watching\<close> returns false with its
  message. A missing source at start time is the reported failure: false, with the state
  unchanged. A source that exists and cannot be read is not: the watcher starts and true
  is returned.
\<close>

theorem restart_is_reported_noop:
  "(is_watching w \<longrightarrow>
      start_log_watching w fs found scan = ((True, ''Log watcher is already running''), w)
      \<and> start_watching w fs found lp scan = ((False, ''Already watching log file''), w))
   \<and> (\<not> is_watching w \<and> (falsy found \<or> (\<exists>p. found = Some p \<and> fs p = Missing)) \<longrightarrow>
        fst (fst (start_log_watching w fs found scan)) = False
        \<and> snd (start_log_watching w fs found scan) = w)
   \<and> (\<not> is_watching w \<and> found = Some p \<and> p \<noteq> [] \<and> fs p = Unreadable n \<longrightarrow>
        start_log_watching w fs found scan
          = ((True, ''Log watcher started successfully''), w\<lparr>log_path := Some p, is_watching := True\<rparr>))"
proof (intro conjI impI)
  assume "is_watching w"
  then show "start_log_watching w fs found scan = ((True, ''Log watcher is already running''), w)"
    and "start_watching w fs found lp scan = ((False, ''Already watching log file''), w)"
    by (simp_all add: start_log_watching_def start_watching_def)
next
  assume a: "\<not> is_watching w \<and> (falsy found \<or> (\<exists>p. found = Some p \<and> fs p = Missing))"
  then show "fst (fst (start_log_watching w fs found scan)) = False"
    by (auto simp: start_log_watching_def start_watching_def source_exists_def falsy_def Let_def
        split: option.splits)
  from a show "snd (start_log_watching w fs found scan) = w"
    by (auto simp: start_log_watching_def start_watching_def source_exists_def falsy_def Let_def
        split: option.splits)
next
  assume "\<not> is_watching w \<and> found = Some p \<and> p \<noteq> [] \<and> fs p = Unreadable n"
  then show "start_log_watching w fs found scan
          = ((True, ''Log watcher started successfully''), w\<lparr>log_path := Some p, is_watching := True\<rparr>)"
    by (simp add: start_log_watching_def start_watching_def source_exists_def falsy_def Let_def
        scan_unreadable position_at_end_def)
qed

theorem restart_is_reported_noop_witness:
  "is_watching watcher_at_100
   \<and> start_log_watching watcher_at_100 fs_unreadable (Some ''output_log.txt'') True
       = ((True, ''Log watcher is already running''), watcher_at_100)
   \<and> start_watching watcher_at_100 fs_unreadable (Some ''output_log.txt'') None True
       = ((False, ''Already watching log file''), watcher_at_100)
   \<and> \<not> is_watching init_watcher
   \<and> fs_missing ''output_log.txt'' = Missing
   \<and> fst (fst (start_log_watching init_watcher fs_missing (Some ''output_log.txt'') True)) = False
   \<and> snd (start_log_watching init_watcher fs_missing (Some ''output_log.txt'') True) = init_watcher"
proof -
  have a: "is_watching watcher_at_100" by (simp add: watcher_at_100_def)
  have b: "\<not> is_watching init_watcher" by (simp add: init_watcher_def)
  have c: "fs_missing ''output_log.txt'' = Missing" by (simp add: fs_missing_def)
  note t = restart_is_reported_noop[of watcher_at_100 fs_unreadable "Some ''output_log.txt''" True
      None "''output_log.txt''" 10]
  note u = restart_is_reported_noop[of init_watcher fs_missing "Some ''output_log.txt''" True
      None "''output_log.txt''" 10]
  from t a have d: "start_log_watching watcher_at_100 fs_unreadable (Some ''output_log.txt'') True
       = ((True, ''Log watcher is already running''), watcher_at_100)
     \<and> start_watching watcher_at_100 fs_unreadable (Some ''output_log.txt'') None True
       = ((False, ''Already watching log file''), watcher_at_100)" by blast
  from u b c have e: "fst (fst (start_log_watching init_watcher fs_missing (Some ''output_log.txt'') True)) = False
     \<and> snd (start_log_watching init_watcher fs_missing (Some ''output_log.txt'') True) = init_watcher"
    by blast
  show ?thesis using a b c d e by blast
qed

text \<open>
  The claim as stated fails in two places. A start on a source that exists and cannot be
  read returns true, not the failure result. And the result of the watcher's own
  \<^verbatim>\<open>start_watching\<close> on a running watcher is the same boolean, false, as on a
  missing source.
\<close>

theorem start_result_counterexample:
  "source_exists (fs_unreadable ''output_log.txt'')
   \<and> start_log_watching init_watcher fs_unreadable (Some ''output_log.txt'') True
       = ((True, ''Log watcher started successfully''),
          init_watcher\<lparr>log_path := Some ''output_log.txt'', is_watching := True\<rparr>)
   \<and> fst (fst (start_watching watcher_at_100 fs_unreadable None (Some ''output_log.txt'') True)) = False
   \<and> fst (fst (start_watching init_watcher fs_missing None (Some ''output_log.txt'') True)) = False"
  by (simp add: start_log_watching_def start_watching_def source_exists_def falsy_def Let_def
      scan_unreadable position_at_end_def fs_unreadable_def fs_missing_def init_watcher_def
      watcher_at_100_def)




















section \<open>Properties of logout\<close>

text \<open>
  Claim C10. After \<^verbatim>\<open>logout\<close> on a logged-in client the five API handles and
  \<^verbatim>\<open>current_user\<close> are \<^verbatim>\<open>None\<close> and \<^verbatim>\<open>is_logged_in\<close> is false, whether the
  remote logout call and the clearing of the saved login return or raise; on a client that
  is not logged in the state is returned as it was, and nothing is called or cleared.
\<close>

theorem logout_resets_client:
  "(is_logged_in c \<longrightarrow>
      api_client (fst (logout r k f c)) = None \<and> auth_api (fst (logout r k f c)) = None
      \<and> groups_api_handle (fst (logout r k f c)) = None \<and> users_api (fst (logout r k f c)) = None
      \<and> worlds_api (fst (logout r k f c)) = None \<and> current_user (fst (logout r k f c)) = None
      \<and> \<not> is_logged_in (fst (logout r k f c)))
   \<and> (\<not> is_logged_in c \<longrightarrow> logout r k f c = (c, False, False))"
  by (simp add: logout_def reset_client_def Let_def)

theorem logout_resets_client_witness:
  "fst (logout Fails Succeeds True demo_client)
     = \<lparr>api_client = None, auth_api = None, groups_api_handle = None, users_api = None,
        worlds_api = None, current_user = None, is_logged_in = False, config_manager = Some 6\<rparr>
   \<and> is_logged_in demo_client
   \<and> api_client (fst (logout Fails Succeeds True demo_client)) = None
   \<and> \<not> is_logged_in (fst (logout Fails Succeeds True demo_client))
   \<and> \<not> is_logged_in (reset_client demo_client)
   \<and> logout Succeeds Succeeds True (reset_client demo_client) = (reset_client demo_client, False, False)"
proof -
  have a: "is_logged_in demo_client" by (simp add: demo_client_def)
  have b: "\<not> is_logged_in (reset_client demo_client)" by (simp add: reset_client_def)
  have c: "fst (logout Fails Succeeds True demo_client)
     = \<lparr>api_client = None, auth_api = None, groups_api_handle = None, users_api = None,
        worlds_api = None, current_user = None, is_logged_in = False, config_manager = Some 6\<rparr>"
    by (simp add: logout_def reset_client_def demo_client_def Let_def)
  from logout_resets_client[of demo_client Fails Succeeds True] a
  have d: "api_client (fst (logout Fails Succeeds True demo_client)) = None
     \<and> \<not> is_logged_in (fst (logout Fails Succeeds True demo_client))" by blast
  from logout_resets_client[of "reset_client demo_client" Succeeds Succeeds True] b
  have e: "logout Succeeds Succeeds True (reset_client demo_client) = (reset_client demo_client, False, False)"
    by blast
  show ?thesis using a b c d e by blast
qed

section \<open>Properties of the workers\<close>

text \<open>
  Claim C5. When the membership re-validation returns an existing membership (not the
  404 signal), the worker counts the player as skipped, makes no other call (so no
  create-invite call) and leaves the invited and failed counts as they were. So a player
  dispatched again after becoming a member of the group is skipped, not invited twice.
\<close>

theorem member_is_skipped:
  assumes "get_group_member api group_id (id' p) = Returns True"
  shows "invite_player api group_id p c
           = (c\<lparr>skipped_count := skipped_count c + 1\<rparr>, [GetGroupMember group_id (id' p)])
     \<and> invited_count (fst (invite_player api group_id p c)) = invited_count c
     \<and> failed_count (fst (invite_player api group_id p c)) = failed_count c
     \<and> CreateGroupInvite group_id (id' p) \<notin> set (snd (invite_player api group_id p c))
     \<and> (i < length (threads s) \<and> threads s ! i = Process p \<longrightarrow>
          counts (worker_step api group_id i s)
            = (counts s)\<lparr>skipped_count := skipped_count (counts s) + 1\<rparr>
          \<and> api_calls (worker_step api group_id i s)
            = api_calls s @ [GetGroupMember group_id (id' p)])"
  using assms by (simp add: invite_player_def worker_step_def goto_def)

theorem member_is_skipped_witness:
  "invite_player api_not_member ''grp_1'' bob zero_counters
     = (\<lparr>invited_count = 1, failed_count = 0, skipped_count = 0\<rparr>,
        [GetGroupMember ''grp_1'' ''usr_1'', GetGroupInvites ''grp_1'',
         CreateGroupInvite ''grp_1'' ''usr_1''])
   \<and> get_group_member api_member ''grp_1'' (id' bob) = Returns True
   \<and> invite_player api_member ''grp_1'' bob zero_counters
     = (\<lparr>invited_count = 0, failed_count = 0, skipped_count = 1\<rparr>,
        [GetGroupMember ''grp_1'' ''usr_1''])"
proof -
  have first: "invite_player api_not_member ''grp_1'' bob zero_counters
     = (\<lparr>invited_count = 1, failed_count = 0, skipped_count = 0\<rparr>,
        [GetGroupMember ''grp_1'' ''usr_1'', GetGroupInvites ''grp_1'',
         CreateGroupInvite ''grp_1'' ''usr_1''])"
    by (simp add: invite_player_def check_pending_def send_invite_def api_not_member_def
        bob_def zero_counters_def)
  have h: "get_group_member api_member ''grp_1'' (id' bob) = Returns True"
    by (simp add: api_member_def)
  from member_is_skipped[OF h, of zero_counters 0 "start_pool [] 0"]
  have "invite_player api_member ''grp_1'' bob zero_counters
     = (zero_counters\<lparr>skipped_count := skipped_count zero_counters + 1\<rparr>,
        [GetGroupMember ''grp_1'' (id' bob)])" by blast
  then have second: "invite_player api_member ''grp_1'' bob zero_counters
     = (\<lparr>invited_count = 0, failed_count = 0, skipped_count = 1\<rparr>,
        [GetGroupMember ''grp_1'' ''usr_1''])"
    by (simp add: zero_counters_def bob_def)
  show ?thesis using first h second by blast
qed

section \<open>Properties of the eligibility filter\<close>



















text \<open>
  The hypothesis on the recorded join time is not always met. After two joins of Bob
  and one leave, Bob is present with the later join as \<^verbatim>\<open>joined_at\<close>, and the leave
  callback has deleted his entry of \<^verbatim>\<open>_player_join_times\<close>. He is then paired with
  the time of the reading, the branch the source comments with
  \<^verbatim>\<open>shouldn't happen\<close>, his time in the instance is taken as the twenty milliseconds
  between the two readings of the clock, and no player is handed to the invitation
  thread, at any positive delay, though none of the four exclusions holds of him.
\<close>

lemma present_player_without_recorded_join:
  "snapshot_ids watcher_bob_back = [''usr_1'']
   \<and> joined_at watcher_bob_back ''usr_1'' = Some (2024, 1, 1, 10, 0, 7, 0)
   \<and> map_of (logic_player_join_times watcher_bob_back) ''usr_1'' = None
   \<and> get_players_in_instance_with_times watcher_bob_back (2024, 1, 1, 10, 10, 0, 0)
       = [(bob, (2024, 1, 1, 10, 10, 0, 0))]
   \<and> time_in_instance (2024, 1, 1, 10, 10, 0, 20000) (2024, 1, 1, 10, 0, 7, 0) = 593020000
   \<and> \<not> excluded watcher_bob_back ''usr_me'' [] [] (2024, 1, 1, 10, 10, 0, 20000) 5 ''usr_1''
   \<and> players_to_invite watcher_bob_back ''usr_me'' [] [] (2024, 1, 1, 10, 10, 0, 0)
        (2024, 1, 1, 10, 10, 0, 20000) 5 = None"
proof -
  have a: "snapshot_ids watcher_bob_back = [''usr_1'']" by code_simp
  have b: "joined_at watcher_bob_back ''usr_1'' = Some (2024, 1, 1, 10, 0, 7, 0)" by code_simp
  have c: "map_of (logic_player_join_times watcher_bob_back) ''usr_1'' = None" by code_simp
  have d: "get_players_in_instance_with_times watcher_bob_back (2024, 1, 1, 10, 10, 0, 0)
       = [(bob, (2024, 1, 1, 10, 10, 0, 0))]" by code_simp
  have e: "time_in_instance (2024, 1, 1, 10, 10, 0, 20000) (2024, 1, 1, 10, 0, 7, 0) = 593020000"
    by code_simp
  have f: "\<not> excluded watcher_bob_back ''usr_me'' [] [] (2024, 1, 1, 10, 10, 0, 20000) 5 ''usr_1''"
    by code_simp
  have g: "players_to_invite watcher_bob_back ''usr_me'' [] [] (2024, 1, 1, 10, 10, 0, 0)
        (2024, 1, 1, 10, 10, 0, 20000) 5 = None" by code_simp
  show ?thesis by (intro conjI a b c d e f g)
qed

section \<open>Properties of the pool\<close>







lemma goto_fields [simp]:
  "player_queue (goto i pl s) = player_queue s" "is_inviting (goto i pl s) = is_inviting s"
  "counts (goto i pl s) = counts s" "api_calls (goto i pl s) = api_calls s"
  "length (threads (goto i pl s)) = length (threads s)"
  by (simp_all add: goto_def)



lemma stop_inviting_fields [simp]:
  "\<not> is_inviting (stop_inviting s)" "player_queue (stop_inviting s) = player_queue s"
  "counts (stop_inviting s) = counts s" "threads (stop_inviting s) = threads s"
  by (simp_all add: stop_inviting_def)


lemma held_fields [simp]:
  "held (s\<lparr>player_queue := q\<rparr>) = held s" "held (s\<lparr>counts := c\<rparr>) = held s"
  "held (s\<lparr>api_calls := a\<rparr>) = held s" "held (s\<lparr>is_inviting := b\<rparr>) = held s"
  "in_process (s\<lparr>player_queue := q\<rparr>) = in_process s" "in_process (s\<lparr>counts := c\<rparr>) = in_process s"
  "in_process (s\<lparr>api_calls := a\<rparr>) = in_process s" "in_process (s\<lparr>is_inviting := b\<rparr>) = in_process s"
  by (simp_all add: held_def in_process_def)




















end
